theory Spec2Isabelle
  imports Main "HOL-Library.Word"
begin

section \<open>QuasiAtomic: quasi-atomic 64-bit operations (runtime/base/quasi_atomic.h)\<close>

text \<open>
  The header defines three inline operations on a 64-bit cell (\<open>Read64\<close>, \<open>Write64\<close>,
  \<open>Cas64\<close>), the selector \<open>NeedSwapMutexes\<close> that chooses between native instructions and
  a mutex-striped fallback, and the constructor fence. Which instruction an operation
  executes is fixed by preprocessor symbols of the build; the model takes them as a record
  and returns, with the result of a call, the list of instructions and calls it executed.
\<close>

subsection \<open>Data\<close>

type_synonym int64 = "64 word"

text \<open>The address of a caller-owned, 8-byte aligned cell (\<open>volatile int64_t*\<close>).\<close>

type_synonym addr = nat

text \<open>
  The build: \<open>kRuntimeISA\<close> and the type \<open>InstructionSet\<close> come from
  \<open>arch/instruction_set.h\<close> and are a parameter (\<open>'isa\<close>); the other fields are the
  symbols tested by \<open>#if defined(...)\<close>.
\<close>

record 'isa target =
  kRuntimeISA :: 'isa
  defined_LP64 :: bool
  defined_arm :: bool
  defined_ARM_FEATURE_LPAE :: bool
  defined_i386 :: bool
  defined_aarch64 :: bool

text \<open>The lock primitive of the surrounding runtime (\<open>class Mutex\<close>), non-reentrant.\<close>

datatype Mutex = Unlocked | Locked

text \<open>
  The process state the operations touch: the memory cells, the pool \<open>gSwapMutexes\<close>
  (a pointer to a vector, \<open>None\<close> for the null pointer), and the environment of the
  exclusive monitor: \<open>strexd_status w k\<close> is the status that the \<open>k\<close>-th \<open>strexd\<close> of the
  run writes to its status register (0 when the store was performed), \<open>strexd_count\<close>
  the number of \<open>strexd\<close> executed so far.
\<close>

record world =
  mem :: "addr \<Rightarrow> int64"
  gSwapMutexes :: "Mutex list option"
  strexd_status :: "nat \<Rightarrow> 32 word"
  strexd_count :: nat

text \<open>What a call executes, in program order.\<close>

datatype 'isa event =
    Call_NeedSwapMutexes 'isa
  | Load64 addr
  | Store64 addr int64
  | Ldrd addr
  | Ldrexd addr
  | Strexd addr int64 "32 word"
  | Strd addr int64
  | Movq_load addr
  | Movq_store addr int64
  | Sync_bool_compare_and_swap addr int64 int64
  | Log_FATAL string
  | Call_SwapMutexRead64 addr
  | Call_SwapMutexWrite64 addr int64
  | Call_SwapMutexCas64 int64 int64 addr
  | Dmb_ishst
  | Atomic_thread_fence_release

text \<open>
  How a call ends: it returns, \<open>LOG(FATAL)\<close> aborts the process with its message, a lock
  that is held is waited for, or the behaviour is undefined (the pool is used while it
  does not exist). A call that runs forever has no outcome (\<open>None\<close>, see \<open>Write64\<close>).
\<close>

datatype 'a outcome = Returns 'a | Aborts string | Blocks | UndefinedBehaviour

fun then_do :: "'a outcome \<Rightarrow> ('a \<Rightarrow> 'b outcome) \<Rightarrow> 'b outcome" where
  "then_do (Returns x) f = f x"
| "then_do (Aborts m) f = Aborts m"
| "then_do Blocks f = Blocks"
| "then_do UndefinedBehaviour f = UndefinedBehaviour"

subsection \<open>The strategy selector\<close>

definition NeedSwapMutexes :: "'isa \<Rightarrow> bool" where
  "NeedSwapMutexes isa = False"

definition kSwapMutexCount :: nat where
  "kSwapMutexCount = 32"

subsection \<open>The mutex-striped fallback\<close>

text \<open>
  \<open>GetSwapMutex\<close>, \<open>SwapMutexRead64\<close>, \<open>SwapMutexWrite64\<close>, \<open>SwapMutexCas64\<close>, \<open>Startup\<close>
  and \<open>Shutdown\<close> are declared in the header and defined in \<open>quasi_atomic.cc\<close>, which
  is missing; they are modelled from the spec. Each fallback variant acquires the
  stripe's lock, performs a plain read, write or compare-and-conditionally-write, and
  releases the lock.
\<close>

text \<open>
  Modelled from the spec: \<open>GetSwapMutex\<close> (defined in \<open>quasi_atomic.cc\<close>), "a
  deterministic hash of the address into one of the 32 pool entries (e.g., a
  shift-and-modulo on the address value)"; the shift drops the three low bits of the
  address of an 8-byte cell. The result is the index of the lock in the pool.
\<close>

definition GetSwapMutex :: "addr \<Rightarrow> nat" where
  "GetSwapMutex addr = (addr div 2 ^ 3) mod kSwapMutexCount"

text \<open>
  Modelled from the spec: the lock primitive (\<open>class Mutex\<close>, supplied by the surrounding
  runtime, only declared in the header), "offering blocking acquire and release, assumed
  non-reentrant". Acquiring the \<open>i\<close>-th lock of the pool waits when it is held.
\<close>

definition MutexLock :: "nat \<Rightarrow> world \<Rightarrow> world outcome" where
  "MutexLock i w =
     (case gSwapMutexes w of
        None \<Rightarrow> UndefinedBehaviour
      | Some pool \<Rightarrow>
          if length pool \<le> i then UndefinedBehaviour
          else if pool ! i = Locked then Blocks
          else Returns (w\<lparr>gSwapMutexes := Some (pool[i := Locked])\<rparr>))"

text \<open>
  Modelled from the spec: release of the \<open>i\<close>-th lock of the pool (\<open>class Mutex\<close>, only
  declared in the header). Releasing a lock that is not held is undefined.
\<close>

definition MutexUnlock :: "nat \<Rightarrow> world \<Rightarrow> world outcome" where
  "MutexUnlock i w =
     (case gSwapMutexes w of
        None \<Rightarrow> UndefinedBehaviour
      | Some pool \<Rightarrow>
          if length pool \<le> i then UndefinedBehaviour
          else if pool ! i = Unlocked then UndefinedBehaviour
          else Returns (w\<lparr>gSwapMutexes := Some (pool[i := Unlocked])\<rparr>))"

text \<open>Modelled from the spec: \<open>SwapMutexRead64\<close> (defined in \<open>quasi_atomic.cc\<close>).\<close>

definition SwapMutexRead64 :: "addr \<Rightarrow> world \<Rightarrow> (int64 \<times> world) outcome" where
  "SwapMutexRead64 addr w =
     then_do (MutexLock (GetSwapMutex addr) w) (\<lambda>w1.
       then_do (MutexUnlock (GetSwapMutex addr) w1) (\<lambda>w2.
         Returns (mem w1 addr, w2)))"

text \<open>Modelled from the spec: \<open>SwapMutexWrite64\<close> (defined in \<open>quasi_atomic.cc\<close>).\<close>

definition SwapMutexWrite64 :: "addr \<Rightarrow> int64 \<Rightarrow> world \<Rightarrow> world outcome" where
  "SwapMutexWrite64 addr val w =
     then_do (MutexLock (GetSwapMutex addr) w) (\<lambda>w1.
       MutexUnlock (GetSwapMutex addr) (w1\<lparr>mem := (mem w1)(addr := val)\<rparr>))"

text \<open>Modelled from the spec: \<open>SwapMutexCas64\<close> (defined in \<open>quasi_atomic.cc\<close>).\<close>

definition SwapMutexCas64 :: "int64 \<Rightarrow> int64 \<Rightarrow> addr \<Rightarrow> world \<Rightarrow> (bool \<times> world) outcome" where
  "SwapMutexCas64 old_value new_value addr w =
     then_do (MutexLock (GetSwapMutex addr) w) (\<lambda>w1.
       if mem w1 addr = old_value
       then then_do (MutexUnlock (GetSwapMutex addr) (w1\<lparr>mem := (mem w1)(addr := new_value)\<rparr>))
              (\<lambda>w2. Returns (True, w2))
       else then_do (MutexUnlock (GetSwapMutex addr) w1) (\<lambda>w2. Returns (False, w2)))"

text \<open>
  Modelled from the spec: the allocation that \<open>Startup\<close> performs when the fallback is
  selected (\<open>quasi_atomic.cc\<close>): "allocates the MutexPool with exactly 32 independent
  locks".
\<close>

definition AllocateSwapMutexes :: "world \<Rightarrow> world" where
  "AllocateSwapMutexes w = w\<lparr>gSwapMutexes := Some (replicate kSwapMutexCount Unlocked)\<rparr>"

text \<open>
  Modelled from the spec: \<open>Startup\<close> (defined in \<open>quasi_atomic.cc\<close>): "if fallback
  strategy is active for the current architecture, allocates the MutexPool [...];
  otherwise a no-op".
\<close>

definition Startup :: "'isa target \<Rightarrow> world \<Rightarrow> world" where
  "Startup cfg w = (if NeedSwapMutexes (kRuntimeISA cfg) then AllocateSwapMutexes w else w)"

text \<open>
  Modelled from the spec: \<open>Shutdown\<close> (defined in \<open>quasi_atomic.cc\<close>): "releases all
  pool resources".
\<close>

definition Shutdown :: "world \<Rightarrow> world" where
  "Shutdown w = w\<lparr>gSwapMutexes := None\<rparr>"

subsection \<open>Read64\<close>

definition Read64 :: "'isa target \<Rightarrow> addr \<Rightarrow> world \<Rightarrow> 'isa event list \<times> (int64 \<times> world) outcome" where
  "Read64 cfg addr w =
     (if \<not> NeedSwapMutexes (kRuntimeISA cfg) then
        (if defined_LP64 cfg then
           ([Call_NeedSwapMutexes (kRuntimeISA cfg), Load64 addr], Returns (mem w addr, w))
         else if defined_arm cfg then
           (if defined_ARM_FEATURE_LPAE cfg then
              ([Call_NeedSwapMutexes (kRuntimeISA cfg), Ldrd addr], Returns (mem w addr, w))
            else
              ([Call_NeedSwapMutexes (kRuntimeISA cfg), Ldrexd addr], Returns (mem w addr, w)))
         else if defined_i386 cfg then
           ([Call_NeedSwapMutexes (kRuntimeISA cfg), Movq_load addr], Returns (mem w addr, w))
         else
           ([Call_NeedSwapMutexes (kRuntimeISA cfg), Log_FATAL ''Unsupported architecture''],
            Aborts ''Unsupported architecture''))
      else
        ([Call_NeedSwapMutexes (kRuntimeISA cfg), Call_SwapMutexRead64 addr],
         SwapMutexRead64 addr w))"

subsection \<open>Write64\<close>

text \<open>
  The \<open>do ... while (status != 0)\<close> loop around \<open>ldrexd\<close>/\<open>strexd\<close>. The loaded \<open>prev\<close>
  is not used. A \<open>strexd\<close> that reports a non-zero status has stored nothing. The loop
  has no bound, so it is a partial function: \<open>None\<close> is the run that never leaves it.
\<close>

partial_function (option) Write64_loop ::
  "addr \<Rightarrow> int64 \<Rightarrow> 'isa event list \<Rightarrow> world \<Rightarrow> ('isa event list \<times> world) option" where
  "Write64_loop addr val tr w =
     (let status = strexd_status w (strexd_count w);
          w' = w\<lparr>mem := (if status = 0 then (mem w)(addr := val) else mem w),
                 strexd_count := strexd_count w + 1\<rparr>;
          tr' = tr @ [Ldrexd addr, Strexd addr val status]
      in if status \<noteq> 0 then Write64_loop addr val tr' w' else Some (tr', w'))"

definition Write64 :: "'isa target \<Rightarrow> addr \<Rightarrow> int64 \<Rightarrow> world \<Rightarrow> ('isa event list \<times> world outcome) option" where
  "Write64 cfg addr val w =
     (if \<not> NeedSwapMutexes (kRuntimeISA cfg) then
        (if defined_LP64 cfg then
           Some ([Call_NeedSwapMutexes (kRuntimeISA cfg), Store64 addr val],
                 Returns (w\<lparr>mem := (mem w)(addr := val)\<rparr>))
         else if defined_arm cfg then
           (if defined_ARM_FEATURE_LPAE cfg then
              Some ([Call_NeedSwapMutexes (kRuntimeISA cfg), Strd addr val],
                    Returns (w\<lparr>mem := (mem w)(addr := val)\<rparr>))
            else
              (case Write64_loop addr val [Call_NeedSwapMutexes (kRuntimeISA cfg)] w of
                 None \<Rightarrow> None
               | Some (tr, w') \<Rightarrow> Some (tr, Returns w')))
         else if defined_i386 cfg then
           Some ([Call_NeedSwapMutexes (kRuntimeISA cfg), Movq_store addr val],
                 Returns (w\<lparr>mem := (mem w)(addr := val)\<rparr>))
         else
           Some ([Call_NeedSwapMutexes (kRuntimeISA cfg), Log_FATAL ''Unsupported architecture''],
                 Aborts ''Unsupported architecture''))
      else
        Some ([Call_NeedSwapMutexes (kRuntimeISA cfg), Call_SwapMutexWrite64 addr val],
              SwapMutexWrite64 addr val w))"

subsection \<open>Cas64\<close>

text \<open>
  The compiler builtin \<open>__sync_bool_compare_and_swap(addr, old, new)\<close>: one indivisible
  step that stores \<open>new\<close> and yields true when the cell holds \<open>old\<close>, and yields false and
  stores nothing otherwise.
\<close>

definition sync_bool_compare_and_swap :: "addr \<Rightarrow> int64 \<Rightarrow> int64 \<Rightarrow> world \<Rightarrow> bool \<times> world" where
  "sync_bool_compare_and_swap addr old_value new_value w =
     (if mem w addr = old_value then (True, w\<lparr>mem := (mem w)(addr := new_value)\<rparr>)
      else (False, w))"

definition Cas64 :: "'isa target \<Rightarrow> int64 \<Rightarrow> int64 \<Rightarrow> addr \<Rightarrow> world \<Rightarrow> 'isa event list \<times> (bool \<times> world) outcome" where
  "Cas64 cfg old_value new_value addr w =
     (if \<not> NeedSwapMutexes (kRuntimeISA cfg) then
        ([Call_NeedSwapMutexes (kRuntimeISA cfg), Sync_bool_compare_and_swap addr old_value new_value],
         Returns (sync_bool_compare_and_swap addr old_value new_value w))
      else
        ([Call_NeedSwapMutexes (kRuntimeISA cfg), Call_SwapMutexCas64 old_value new_value addr],
         SwapMutexCas64 old_value new_value addr w))"

subsection \<open>LongAtomicsUseMutexes and ThreadFenceForConstructor\<close>

definition LongAtomicsUseMutexes :: "'isa \<Rightarrow> world \<Rightarrow> 'isa event list \<times> (bool \<times> world) outcome" where
  "LongAtomicsUseMutexes isa w = ([Call_NeedSwapMutexes isa], Returns (NeedSwapMutexes isa, w))"

definition ThreadFenceForConstructor :: "'isa target \<Rightarrow> world \<Rightarrow> 'isa event list \<times> world outcome" where
  "ThreadFenceForConstructor cfg w =
     (if defined_aarch64 cfg then ([Dmb_ishst], Returns w)
      else ([Atomic_thread_fence_release], Returns w))"

subsection \<open>Reading the list of executed instructions and calls\<close>

fun is_selector_call :: "'isa event \<Rightarrow> bool" where
  "is_selector_call (Call_NeedSwapMutexes isa) = True"
| "is_selector_call e = False"

fun is_fallback_call :: "'isa event \<Rightarrow> bool" where
  "is_fallback_call (Call_SwapMutexRead64 addr) = True"
| "is_fallback_call (Call_SwapMutexWrite64 addr val) = True"
| "is_fallback_call (Call_SwapMutexCas64 old_value new_value addr) = True"
| "is_fallback_call e = False"

text \<open>The statements of the native branch: the instructions, and its \<open>LOG(FATAL)\<close>.\<close>

fun is_native_stmt :: "'isa event \<Rightarrow> bool" where
  "is_native_stmt (Load64 addr) = True"
| "is_native_stmt (Store64 addr val) = True"
| "is_native_stmt (Ldrd addr) = True"
| "is_native_stmt (Ldrexd addr) = True"
| "is_native_stmt (Strexd addr val status) = True"
| "is_native_stmt (Strd addr val) = True"
| "is_native_stmt (Movq_load addr) = True"
| "is_native_stmt (Movq_store addr val) = True"
| "is_native_stmt (Sync_bool_compare_and_swap addr old_value new_value) = True"
| "is_native_stmt (Log_FATAL msg) = True"
| "is_native_stmt e = False"

definition selector_calls :: "'isa event list \<Rightarrow> nat" where
  "selector_calls tr = length (filter is_selector_call tr)"

definition fallback_invoked :: "'isa event list \<Rightarrow> bool" where
  "fallback_invoked tr = list_ex is_fallback_call tr"

definition native_path :: "'isa event list \<Rightarrow> bool" where
  "native_path tr = list_ex is_native_stmt tr"

text \<open>
  The instructions of \<open>n\<close> consecutive rounds of the \<open>Write64\<close> loop, the first of them
  being the \<open>c\<close>-th \<open>strexd\<close> of the run.
\<close>

fun attempts :: "addr \<Rightarrow> int64 \<Rightarrow> (nat \<Rightarrow> 32 word) \<Rightarrow> nat \<Rightarrow> nat \<Rightarrow> 'isa event list" where
  "attempts addr val st c 0 = []"
| "attempts addr val st c (Suc n) =
     Ldrexd addr # Strexd addr val (st c) # attempts addr val st (Suc c) n"

subsection \<open>What a fence orders\<close>

text \<open>
  The two fences of \<open>ThreadFenceForConstructor\<close>, by their documentation: \<open>dmb ishst\<close>
  orders stores before it with stores after it, and nothing else; a C++ release fence
  keeps the loads and the stores before it from being reordered with the stores after
  it. \<open>orders e a b\<close>: an access of kind \<open>a\<close> before \<open>e\<close> is not reordered with an access
  of kind \<open>b\<close> after \<open>e\<close>.
\<close>

datatype access = Load_access | Store_access

fun orders :: "'isa event \<Rightarrow> access \<Rightarrow> access \<Rightarrow> bool" where
  "orders Dmb_ishst Store_access Store_access = True"
| "orders Atomic_thread_fence_release Load_access Store_access = True"
| "orders Atomic_thread_fence_release Store_access Store_access = True"
| "orders e a b = False"

definition fence_orders :: "'isa event list \<Rightarrow> access \<Rightarrow> access \<Rightarrow> bool" where
  "fence_orders tr a b = list_ex (\<lambda>e. orders e a b) tr"

definition store_store_only :: "'isa event list \<Rightarrow> bool" where
  "store_store_only tr =
     (fence_orders tr Store_access Store_access \<and> \<not> fence_orders tr Load_access Store_access
      \<and> \<not> fence_orders tr Load_access Load_access \<and> \<not> fence_orders tr Store_access Load_access)"

subsection \<open>Runs of the fallback backend\<close>

text \<open>A sequence of operations issued, one after the other, through the fallback.\<close>

datatype fallback_op = Op_Read64 addr | Op_Write64 addr int64 | Op_Cas64 int64 int64 addr

fun fallback_step :: "fallback_op \<Rightarrow> world \<Rightarrow> world outcome" where
  "fallback_step (Op_Read64 addr) w = then_do (SwapMutexRead64 addr w) (\<lambda>r. Returns (snd r))"
| "fallback_step (Op_Write64 addr val) w = SwapMutexWrite64 addr val w"
| "fallback_step (Op_Cas64 old_value new_value addr) w =
     then_do (SwapMutexCas64 old_value new_value addr w) (\<lambda>r. Returns (snd r))"

fun fallback_run :: "fallback_op list \<Rightarrow> world \<Rightarrow> world outcome" where
  "fallback_run [] w = Returns w"
| "fallback_run (x # xs) w = then_do (fallback_step x w) (fallback_run xs)"

definition pool_size :: "world \<Rightarrow> nat option" where
  "pool_size w = map_option length (gSwapMutexes w)"

subsection \<open>Example builds and states\<close>

definition build_x86_64 :: "string target" where
  "build_x86_64 = \<lparr>kRuntimeISA = ''x86_64'', defined_LP64 = True, defined_arm = False,
     defined_ARM_FEATURE_LPAE = False, defined_i386 = False, defined_aarch64 = False\<rparr>"

definition build_arm64 :: "string target" where
  "build_arm64 = \<lparr>kRuntimeISA = ''arm64'', defined_LP64 = True, defined_arm = False,
     defined_ARM_FEATURE_LPAE = False, defined_i386 = False, defined_aarch64 = True\<rparr>"

definition build_arm :: "string target" where
  "build_arm = \<lparr>kRuntimeISA = ''arm'', defined_LP64 = False, defined_arm = True,
     defined_ARM_FEATURE_LPAE = False, defined_i386 = False, defined_aarch64 = False\<rparr>"

definition build_other :: "string target" where
  "build_other = \<lparr>kRuntimeISA = ''other'', defined_LP64 = False, defined_arm = False,
     defined_ARM_FEATURE_LPAE = False, defined_i386 = False, defined_aarch64 = False\<rparr>"

text \<open>
  Every cell holds 100, no pool, and the exclusive monitor refuses the first two
  \<open>strexd\<close> of the run (\<open>world_2\<close>) or every one (\<open>world_never\<close>).
\<close>

definition world_2 :: world where
  "world_2 = \<lparr>mem = (\<lambda>a. 100), gSwapMutexes = None,
     strexd_status = (\<lambda>k. if k < 2 then 1 else 0), strexd_count = 0\<rparr>"

definition world_never :: world where
  "world_never = \<lparr>mem = (\<lambda>a. 100), gSwapMutexes = None,
     strexd_status = (\<lambda>k. 1), strexd_count = 0\<rparr>"

section \<open>Properties\<close>

subsection \<open>The retry loop of Write64\<close>

lemma Write64_loop_step_fail:
  "strexd_status w (strexd_count w) \<noteq> 0 \<Longrightarrow>
   Write64_loop addr val tr w =
     Write64_loop addr val (tr @ [Ldrexd addr, Strexd addr val (strexd_status w (strexd_count w))])
       (w\<lparr>strexd_count := Suc (strexd_count w)\<rparr>)"
  by (subst Write64_loop.simps) (simp add: Let_def)

lemma Write64_loop_step_ok:
  "strexd_status w (strexd_count w) = 0 \<Longrightarrow>
   Write64_loop addr val tr w =
     Some (tr @ [Ldrexd addr, Strexd addr val 0],
           w\<lparr>mem := (mem w)(addr := val), strexd_count := Suc (strexd_count w)\<rparr>)"
  by (subst Write64_loop.simps) (simp add: Let_def)

lemma Write64_loop_None:
  assumes "\<forall>k\<ge>strexd_count w. strexd_status w k \<noteq> 0"
  shows "Write64_loop addr val tr w = None"
proof (rule ccontr)
  assume "Write64_loop addr val tr w \<noteq> None"
  then obtain y where y: "Write64_loop addr val tr w = Some y" by auto
  have "\<exists>k\<ge>strexd_count w. strexd_status w k = 0"
  proof (rule Write64_loop.raw_induct
      [where P = "\<lambda>addr val tr w y. \<exists>k\<ge>strexd_count w. strexd_status w k = 0", OF _ y], goal_cases)
    case (1 loop addr val tr w y)
    show ?case
    proof (cases "strexd_status w (strexd_count w) = 0")
      case True
      then show ?thesis by blast
    next
      case False
      with 1(2) have "loop addr val (tr @ [Ldrexd addr, Strexd addr val (strexd_status w (strexd_count w))])
          (w\<lparr>strexd_count := Suc (strexd_count w)\<rparr>) = Some y"
        by (simp add: Let_def)
      from 1(1)[OF this] obtain k where "k \<ge> Suc (strexd_count w)" "strexd_status w k = 0"
        by auto
      then show ?thesis by (intro exI[of _ k]) simp
    qed
  qed
  with assms show False by blast
qed

lemma Write64_loop_Some:
  assumes "strexd_status w (strexd_count w + n) = 0"
    and "\<forall>j<n. strexd_status w (strexd_count w + j) \<noteq> 0"
  shows "Write64_loop addr val tr w =
     Some (tr @ attempts addr val (strexd_status w) (strexd_count w) (Suc n),
           w\<lparr>mem := (mem w)(addr := val), strexd_count := Suc (strexd_count w + n)\<rparr>)"
  using assms
proof (induction n arbitrary: tr w)
  case 0
  from 0 have z: "strexd_status w (strexd_count w) = 0" by simp
  show ?case unfolding Write64_loop_step_ok[OF z] using z by (simp add: fun_upd_def)
next
  case (Suc n)
  let ?w = "w\<lparr>strexd_count := Suc (strexd_count w)\<rparr>"
  have f: "strexd_status w (strexd_count w) \<noteq> 0" using Suc.prems(2)[rule_format, of 0] by simp
  have a: "strexd_status ?w (strexd_count ?w + n) = 0" using Suc.prems(1) by simp
  have b: "\<forall>j<n. strexd_status ?w (strexd_count ?w + j) \<noteq> 0"
  proof (intro allI impI)
    fix j assume "j < n"
    then have "Suc j < Suc n" by simp
    with Suc.prems(2) have "strexd_status w (strexd_count w + Suc j) \<noteq> 0" by blast
    then show "strexd_status ?w (strexd_count ?w + j) \<noteq> 0" by simp
  qed
  show ?case
    by (simp add: Write64_loop_step_fail[OF f] Suc.IH[OF a b])
qed

lemma first_success:
  assumes "strexd_count w \<le> k" "strexd_status w k = 0"
  shows "\<exists>n. strexd_status w (strexd_count w + n) = 0
            \<and> (\<forall>j<n. strexd_status w (strexd_count w + j) \<noteq> 0)"
proof -
  let ?P = "\<lambda>m. strexd_status w (strexd_count w + m) = 0"
  have "?P (k - strexd_count w)" using assms by simp
  then have "?P (LEAST m. ?P m)" by (rule LeastI)
  moreover have "\<forall>j<(LEAST m. ?P m). \<not> ?P j" using not_less_Least by blast
  ultimately show ?thesis by blast
qed

lemma Write64_loop_SomeD:
  assumes "Write64_loop addr val tr w = Some (tr', w')"
  shows "\<exists>n. strexd_status w (strexd_count w + n) = 0
            \<and> (\<forall>j<n. strexd_status w (strexd_count w + j) \<noteq> 0)
            \<and> tr' = tr @ attempts addr val (strexd_status w) (strexd_count w) (Suc n)
            \<and> w' = w\<lparr>mem := (mem w)(addr := val), strexd_count := Suc (strexd_count w + n)\<rparr>"
proof -
  have "\<not> (\<forall>k\<ge>strexd_count w. strexd_status w k \<noteq> 0)"
    using Write64_loop_None[of w addr val tr] assms by auto
  then obtain k where "strexd_count w \<le> k" "strexd_status w k = 0" by blast
  from first_success[OF this] obtain n where
    n: "strexd_status w (strexd_count w + n) = 0" "\<forall>j<n. strexd_status w (strexd_count w + j) \<noteq> 0"
    by blast
  from Write64_loop_Some[OF n, of addr val tr] assms n show ?thesis by auto
qed

lemma attempts_no_fallback: "\<not> list_ex is_fallback_call (attempts addr val st c n)"
  by (induction n arbitrary: c) simp_all

lemma attempts_no_selector: "filter is_selector_call (attempts addr val st c n) = []"
  by (induction n arbitrary: c) simp_all

subsection \<open>Compare-and-swap\<close>

text \<open>
  C1. \<open>Cas64(old, new, addr)\<close> returns true and sets the cell to \<open>new\<close> when the cell
  holds \<open>old\<close> at the instant of the check (the state \<open>w\<close> in which the indivisible
  builtin runs); otherwise it returns false and leaves every cell unchanged. A false
  return happens only when the cell did not hold \<open>old\<close>: there is no spurious failure.
\<close>

theorem Cas64_correct:
  "(mem w addr = old_value \<longrightarrow>
      snd (Cas64 cfg old_value new_value addr w)
        = Returns (True, w\<lparr>mem := (mem w)(addr := new_value)\<rparr>))
   \<and> (mem w addr \<noteq> old_value \<longrightarrow>
      snd (Cas64 cfg old_value new_value addr w) = Returns (False, w))
   \<and> (\<forall>w'. snd (Cas64 cfg old_value new_value addr w) = Returns (False, w')
          \<longrightarrow> mem w addr \<noteq> old_value)"
  by (simp add: Cas64_def NeedSwapMutexes_def sync_bool_compare_and_swap_def)

theorem Cas64_correct_witness:
  "snd (Cas64 build_x86_64 100 200 16 world_2)
     = Returns (True, world_2\<lparr>mem := (mem world_2)(16 := 200)\<rparr>)
   \<and> snd (Cas64 build_x86_64 100 300 16 (world_2\<lparr>mem := (mem world_2)(16 := 200)\<rparr>))
     = Returns (False, world_2\<lparr>mem := (mem world_2)(16 := 200)\<rparr>)"
  using Cas64_correct [where w = world_2 and addr = 16 and old_value = 100
      and cfg = build_x86_64 and new_value = 200]
    Cas64_correct [where w = "world_2\<lparr>mem := (mem world_2)(16 := 200)\<rparr>" and addr = 16
      and old_value = 100 and cfg = build_x86_64 and new_value = 300]
  by (simp add: world_2_def)

subsection \<open>Write then read\<close>

lemma Write64_loop_returns:
  assumes "strexd_count w \<le> k" "strexd_status w k = 0"
  shows "\<exists>tr' w'. Write64_loop addr val tr w = Some (tr', w')"
proof -
  from first_success[OF assms] obtain n where
    "strexd_status w (strexd_count w + n) = 0" "\<forall>j<n. strexd_status w (strexd_count w + j) \<noteq> 0"
    by blast
  from Write64_loop_Some[OF this] show ?thesis by blast
qed

text \<open>
  C3. \<open>Write64(addr, v)\<close> followed by \<open>Read64(addr)\<close>, with nothing in between, reads
  \<open>v\<close>: whenever the write returns in a state \<open>w'\<close>, the read in \<open>w'\<close> returns \<open>v\<close> and
  leaves the state as it is. The write does return on every build that has a native
  path (\<open>__LP64__\<close>, \<open>__arm__\<close> or \<open>__i386__\<close>), provided that on the build with the
  \<open>ldrexd\<close>/\<open>strexd\<close> loop some \<open>strexd\<close> eventually succeeds.
\<close>

theorem Write64_then_Read64:
  "(\<forall>tr w'. Write64 cfg addr v w = Some (tr, Returns w')
       \<longrightarrow> snd (Read64 cfg addr w') = Returns (v, w'))
   \<and> ((defined_LP64 cfg \<or> defined_arm cfg \<or> defined_i386 cfg)
        \<and> (\<not> defined_LP64 cfg \<and> defined_arm cfg \<and> \<not> defined_ARM_FEATURE_LPAE cfg
             \<longrightarrow> (\<exists>k\<ge>strexd_count w. strexd_status w k = 0))
       \<longrightarrow> (\<exists>tr w'. Write64 cfg addr v w = Some (tr, Returns w')))"
proof (intro conjI allI impI)
  fix tr w'
  assume a: "Write64 cfg addr v w = Some (tr, Returns w')"
  show "snd (Read64 cfg addr w') = Returns (v, w')"
  proof (cases "\<not> defined_LP64 cfg \<and> defined_arm cfg \<and> \<not> defined_ARM_FEATURE_LPAE cfg")
    case True
    with a have "Write64_loop addr v [Call_NeedSwapMutexes (kRuntimeISA cfg)] w = Some (tr, w')"
      by (auto simp: Write64_def NeedSwapMutexes_def split: option.splits)
    from Write64_loop_SomeD[OF this] have "mem w' addr = v" by auto
    with True show ?thesis by (simp add: Read64_def NeedSwapMutexes_def)
  next
    case False
    with a show ?thesis
      by (auto simp: Write64_def Read64_def NeedSwapMutexes_def split: if_splits)
  qed
next
  assume b: "(defined_LP64 cfg \<or> defined_arm cfg \<or> defined_i386 cfg)
        \<and> (\<not> defined_LP64 cfg \<and> defined_arm cfg \<and> \<not> defined_ARM_FEATURE_LPAE cfg
             \<longrightarrow> (\<exists>k\<ge>strexd_count w. strexd_status w k = 0))"
  show "\<exists>tr w'. Write64 cfg addr v w = Some (tr, Returns w')"
  proof (cases "\<not> defined_LP64 cfg \<and> defined_arm cfg \<and> \<not> defined_ARM_FEATURE_LPAE cfg")
    case True
    with b obtain k where k: "strexd_count w \<le> k" "strexd_status w k = 0" by blast
    from Write64_loop_returns[OF k] obtain tr' w' where
      "Write64_loop addr v [Call_NeedSwapMutexes (kRuntimeISA cfg)] w = Some (tr', w')" by blast
    with True show ?thesis by (simp add: Write64_def NeedSwapMutexes_def)
  next
    case False
    with b show ?thesis by (auto simp: Write64_def NeedSwapMutexes_def)
  qed
qed

lemma Write64_build_arm_world_2:
  "Write64 build_arm 16 v world_2 =
     Some ([Call_NeedSwapMutexes ''arm'', Ldrexd 16, Strexd 16 v 1, Ldrexd 16, Strexd 16 v 1,
            Ldrexd 16, Strexd 16 v 0],
           Returns (world_2\<lparr>mem := (mem world_2)(16 := v), strexd_count := 3\<rparr>))"
proof -
  have "Write64_loop 16 v [Call_NeedSwapMutexes ''arm''] world_2 =
     Some ([Call_NeedSwapMutexes ''arm''] @ attempts 16 v (strexd_status world_2) (strexd_count world_2) (Suc 2),
           world_2\<lparr>mem := (mem world_2)(16 := v), strexd_count := Suc (strexd_count world_2 + 2)\<rparr>)"
    by (rule Write64_loop_Some) (simp_all add: world_2_def)
  then show ?thesis
    by (simp add: Write64_def NeedSwapMutexes_def build_arm_def world_2_def numeral_2_eq_2)
qed

theorem Write64_then_Read64_witness:
  "Write64 build_arm 16 0x1122334455667788 world_2
     = Some ([Call_NeedSwapMutexes ''arm'', Ldrexd 16, Strexd 16 0x1122334455667788 1,
              Ldrexd 16, Strexd 16 0x1122334455667788 1, Ldrexd 16, Strexd 16 0x1122334455667788 0],
             Returns (world_2\<lparr>mem := (mem world_2)(16 := 0x1122334455667788), strexd_count := 3\<rparr>))
   \<and> snd (Read64 build_arm 16 (world_2\<lparr>mem := (mem world_2)(16 := 0x1122334455667788), strexd_count := 3\<rparr>))
     = Returns (0x1122334455667788,
         world_2\<lparr>mem := (mem world_2)(16 := 0x1122334455667788), strexd_count := 3\<rparr>)
   \<and> (\<exists>tr w'. Write64 build_x86_64 16 0x1122334455667788 world_never = Some (tr, Returns w'))"
  using Write64_then_Read64 [where cfg = build_arm and addr = 16 and v = "0x1122334455667788"
      and w = world_2]
    Write64_then_Read64 [where cfg = build_x86_64 and addr = 16 and v = "0x1122334455667788"
      and w = world_never]
    Write64_build_arm_world_2 [of "0x1122334455667788"]
  by (simp add: build_x86_64_def)

subsection \<open>Routing\<close>

lemma Write64_trace_cases:
  assumes "Write64 cfg addr val w = Some (tr, r)"
  shows "(\<exists>e. tr = [Call_NeedSwapMutexes (kRuntimeISA cfg), e] \<and> is_native_stmt e
              \<and> \<not> NeedSwapMutexes (kRuntimeISA cfg))
         \<or> (\<exists>n. tr = Call_NeedSwapMutexes (kRuntimeISA cfg)
                    # attempts addr val (strexd_status w) (strexd_count w) (Suc n)
              \<and> \<not> NeedSwapMutexes (kRuntimeISA cfg))
         \<or> (tr = [Call_NeedSwapMutexes (kRuntimeISA cfg), Call_SwapMutexWrite64 addr val]
              \<and> NeedSwapMutexes (kRuntimeISA cfg))"
proof (cases "\<not> NeedSwapMutexes (kRuntimeISA cfg) \<and> \<not> defined_LP64 cfg \<and> defined_arm cfg
               \<and> \<not> defined_ARM_FEATURE_LPAE cfg")
  case True
  with assms obtain w' where
    "Write64_loop addr val [Call_NeedSwapMutexes (kRuntimeISA cfg)] w = Some (tr, w')"
    by (auto simp: Write64_def split: option.splits)
  from Write64_loop_SomeD[OF this] True show ?thesis by auto
next
  case False
  with assms show ?thesis
    by (auto simp: Write64_def split: if_splits)
qed

lemma selector_calls_attempts:
  "selector_calls (Call_NeedSwapMutexes isa # attempts addr val st c n) = 1"
  by (simp add: selector_calls_def attempts_no_selector)

lemma fallback_invoked_attempts:
  "\<not> fallback_invoked (Call_NeedSwapMutexes isa # attempts addr val st c n)"
  by (simp add: fallback_invoked_def attempts_no_fallback)

lemma native_path_attempts:
  "native_path (Call_NeedSwapMutexes isa # attempts addr val st c (Suc n))"
  by (simp add: native_path_def)

lemma native_pair:
  "is_native_stmt e \<Longrightarrow>
     selector_calls [Call_NeedSwapMutexes isa, e] = 1
     \<and> native_path [Call_NeedSwapMutexes isa, e]
     \<and> \<not> fallback_invoked [Call_NeedSwapMutexes isa, e]"
  by (cases e) (simp_all add: selector_calls_def native_path_def fallback_invoked_def)

lemma Write64_trace_reading:
  assumes "Write64 cfg addr val w = Some (tr, r)"
  shows "selector_calls tr = 1
      \<and> fallback_invoked tr = NeedSwapMutexes (kRuntimeISA cfg)
      \<and> native_path tr = (\<not> NeedSwapMutexes (kRuntimeISA cfg))"
proof -
  from Write64_trace_cases[OF assms] consider
    (direct) e where "tr = [Call_NeedSwapMutexes (kRuntimeISA cfg), e]" "is_native_stmt e"
      "\<not> NeedSwapMutexes (kRuntimeISA cfg)"
  | (loop) n where "tr = Call_NeedSwapMutexes (kRuntimeISA cfg)
        # attempts addr val (strexd_status w) (strexd_count w) (Suc n)"
      "\<not> NeedSwapMutexes (kRuntimeISA cfg)"
  | (fallback) "tr = [Call_NeedSwapMutexes (kRuntimeISA cfg), Call_SwapMutexWrite64 addr val]"
      "NeedSwapMutexes (kRuntimeISA cfg)"
    by blast
  then show ?thesis
  proof cases
    case direct
    with native_pair[OF direct(2), of "kRuntimeISA cfg"] show ?thesis by simp
  next
    case loop
    then show ?thesis
      by (simp add: selector_calls_attempts native_path_attempts fallback_invoked_attempts
          del: attempts.simps)
  next
    case fallback
    then show ?thesis
      by (simp add: selector_calls_def native_path_def fallback_invoked_def)
  qed
qed

text \<open>
  C4. \<open>NeedSwapMutexes\<close>, and with it \<open>LongAtomicsUseMutexes\<close>, is false for every
  instruction set, so \<open>Read64\<close>, \<open>Write64\<close> and \<open>Cas64\<close> execute a statement of the native
  branch and never call \<open>SwapMutexRead64\<close>, \<open>SwapMutexWrite64\<close> or \<open>SwapMutexCas64\<close>.
\<close>

theorem fallback_never_invoked:
  "NeedSwapMutexes isa = False
   \<and> snd (LongAtomicsUseMutexes isa w) = Returns (False, w)
   \<and> native_path (fst (Read64 cfg addr w)) \<and> \<not> fallback_invoked (fst (Read64 cfg addr w))
   \<and> (\<forall>tr r. Write64 cfg addr val w = Some (tr, r) \<longrightarrow> native_path tr \<and> \<not> fallback_invoked tr)
   \<and> native_path (fst (Cas64 cfg old_value new_value addr w))
   \<and> \<not> fallback_invoked (fst (Cas64 cfg old_value new_value addr w))"
proof -
  have n: "\<And>i::'c. NeedSwapMutexes i = False" by (simp add: NeedSwapMutexes_def)
  have r: "native_path (fst (Read64 cfg addr w)) \<and> \<not> fallback_invoked (fst (Read64 cfg addr w))"
    by (simp add: Read64_def n native_path_def fallback_invoked_def)
  have c: "native_path (fst (Cas64 cfg old_value new_value addr w))
      \<and> \<not> fallback_invoked (fst (Cas64 cfg old_value new_value addr w))"
    by (simp add: Cas64_def n native_path_def fallback_invoked_def)
  have wr: "native_path tr \<and> \<not> fallback_invoked tr"
    if "Write64 cfg addr val w = Some (tr, r)" for tr r
    using Write64_trace_reading[OF that] by (simp add: n)
  show ?thesis using n r c wr by (simp add: LongAtomicsUseMutexes_def NeedSwapMutexes_def)
qed

theorem fallback_never_invoked_witness:
  "Write64 build_arm 16 7 world_2
     = Some ([Call_NeedSwapMutexes ''arm'', Ldrexd 16, Strexd 16 7 1, Ldrexd 16, Strexd 16 7 1,
              Ldrexd 16, Strexd 16 7 0],
             Returns (world_2\<lparr>mem := (mem world_2)(16 := 7), strexd_count := 3\<rparr>))
   \<and> native_path [Call_NeedSwapMutexes ''arm'', Ldrexd 16, Strexd 16 7 1, Ldrexd 16,
        Strexd 16 7 1, Ldrexd 16, Strexd 16 7 0 :: string event]
   \<and> \<not> fallback_invoked [Call_NeedSwapMutexes ''arm'', Ldrexd 16, Strexd 16 7 1, Ldrexd 16,
        Strexd 16 7 1, Ldrexd 16, Strexd 16 7 0 :: string event]"
  using fallback_never_invoked [where cfg = build_arm and addr = 16 and val = 7 and w = world_2
      and isa = "''arm''" and old_value = 0 and new_value = 0]
    Write64_build_arm_world_2 [of 7]
  by simp

text \<open>
  C5. Each of \<open>Read64\<close>, \<open>Write64\<close> and \<open>Cas64\<close> calls the selector exactly once, calls
  the fallback variant exactly when the selector answers true, and executes the native
  branch exactly when it answers false. The proof does not use the value of
  \<open>NeedSwapMutexes\<close>.
\<close>

theorem selector_consulted_once:
  "selector_calls (fst (Read64 cfg addr w)) = 1
   \<and> fallback_invoked (fst (Read64 cfg addr w)) = NeedSwapMutexes (kRuntimeISA cfg)
   \<and> native_path (fst (Read64 cfg addr w)) = (\<not> NeedSwapMutexes (kRuntimeISA cfg))
   \<and> (\<forall>tr r. Write64 cfg addr val w = Some (tr, r) \<longrightarrow>
         selector_calls tr = 1
         \<and> fallback_invoked tr = NeedSwapMutexes (kRuntimeISA cfg)
         \<and> native_path tr = (\<not> NeedSwapMutexes (kRuntimeISA cfg)))
   \<and> selector_calls (fst (Cas64 cfg old_value new_value addr w)) = 1
   \<and> fallback_invoked (fst (Cas64 cfg old_value new_value addr w))
       = NeedSwapMutexes (kRuntimeISA cfg)
   \<and> native_path (fst (Cas64 cfg old_value new_value addr w))
       = (\<not> NeedSwapMutexes (kRuntimeISA cfg))"
proof -
  have r: "selector_calls (fst (Read64 cfg addr w)) = 1
      \<and> fallback_invoked (fst (Read64 cfg addr w)) = NeedSwapMutexes (kRuntimeISA cfg)
      \<and> native_path (fst (Read64 cfg addr w)) = (\<not> NeedSwapMutexes (kRuntimeISA cfg))"
    by (simp add: Read64_def selector_calls_def native_path_def fallback_invoked_def)
  have c: "selector_calls (fst (Cas64 cfg old_value new_value addr w)) = 1
      \<and> fallback_invoked (fst (Cas64 cfg old_value new_value addr w))
          = NeedSwapMutexes (kRuntimeISA cfg)
      \<and> native_path (fst (Cas64 cfg old_value new_value addr w))
          = (\<not> NeedSwapMutexes (kRuntimeISA cfg))"
    by (simp add: Cas64_def selector_calls_def native_path_def fallback_invoked_def)
  show ?thesis using r c Write64_trace_reading by blast
qed

theorem selector_consulted_once_witness:
  "Write64 build_arm 16 7 world_2
     = Some ([Call_NeedSwapMutexes ''arm'', Ldrexd 16, Strexd 16 7 1, Ldrexd 16, Strexd 16 7 1,
              Ldrexd 16, Strexd 16 7 0],
             Returns (world_2\<lparr>mem := (mem world_2)(16 := 7), strexd_count := 3\<rparr>))
   \<and> selector_calls [Call_NeedSwapMutexes ''arm'', Ldrexd 16, Strexd 16 7 1, Ldrexd 16,
        Strexd 16 7 1, Ldrexd 16, Strexd 16 7 0 :: string event] = 1
   \<and> \<not> NeedSwapMutexes (kRuntimeISA build_arm)
   \<and> native_path [Call_NeedSwapMutexes ''arm'', Ldrexd 16, Strexd 16 7 1, Ldrexd 16,
        Strexd 16 7 1, Ldrexd 16, Strexd 16 7 0 :: string event]"
  using selector_consulted_once [where cfg = build_arm and addr = 16 and val = 7 and w = world_2
      and old_value = 0 and new_value = 0]
    Write64_build_arm_world_2 [of 7]
  by (simp add: NeedSwapMutexes_def)

text \<open>
  C6. The selector is pure: for an architecture \<open>arch\<close> there is one boolean that every
  call of \<open>LongAtomicsUseMutexes arch\<close> returns, in whatever state the process is, and a
  call leaves the state as it found it; the boolean is \<open>NeedSwapMutexes arch\<close>.
\<close>

theorem selector_pure:
  "\<exists>b. NeedSwapMutexes arch = b
        \<and> (\<forall>w. LongAtomicsUseMutexes arch w = ([Call_NeedSwapMutexes arch], Returns (b, w)))"
  by (simp add: LongAtomicsUseMutexes_def)

subsection \<open>Unsupported architectures\<close>

text \<open>
  C7. On a build that defines none of \<open>__LP64__\<close>, \<open>__arm__\<close> and \<open>__i386__\<close> and is not
  routed to the fallback, \<open>Read64\<close> and \<open>Write64\<close> log the fatal message
  "Unsupported architecture" and abort the process; they return nothing, neither a value
  nor an error.
\<close>

theorem unsupported_architecture_fatal:
  assumes "\<not> defined_LP64 cfg" and "\<not> defined_arm cfg" and "\<not> defined_i386 cfg"
    and "\<not> NeedSwapMutexes (kRuntimeISA cfg)"
  shows "Read64 cfg addr w
           = ([Call_NeedSwapMutexes (kRuntimeISA cfg), Log_FATAL ''Unsupported architecture''],
              Aborts ''Unsupported architecture'')
         \<and> Write64 cfg addr val w
           = Some ([Call_NeedSwapMutexes (kRuntimeISA cfg), Log_FATAL ''Unsupported architecture''],
                   Aborts ''Unsupported architecture'')"
  using assms by (simp add: Read64_def Write64_def)

theorem unsupported_architecture_fatal_witness:
  "\<not> defined_LP64 build_other \<and> \<not> defined_arm build_other \<and> \<not> defined_i386 build_other
   \<and> \<not> NeedSwapMutexes (kRuntimeISA build_other)
   \<and> Read64 build_other 16 world_2
       = ([Call_NeedSwapMutexes ''other'', Log_FATAL ''Unsupported architecture''],
          Aborts ''Unsupported architecture'')
   \<and> Write64 build_other 16 7 world_2
       = Some ([Call_NeedSwapMutexes ''other'', Log_FATAL ''Unsupported architecture''],
               Aborts ''Unsupported architecture'')"
proof -
  have h: "\<not> defined_LP64 build_other" "\<not> defined_arm build_other" "\<not> defined_i386 build_other"
    "\<not> NeedSwapMutexes (kRuntimeISA build_other)"
    by (simp_all add: build_other_def NeedSwapMutexes_def)
  from unsupported_architecture_fatal [OF h, of 16 world_2 7] h show ?thesis
    by (simp add: build_other_def)
qed

subsection \<open>The constructor fence\<close>

text \<open>
  C8, as stated, fails: on a 32-bit ARM build \<open>ThreadFenceForConstructor\<close> is a C++
  release fence, which also orders earlier loads with later stores, so it is not a
  store-store barrier and nothing stronger.
\<close>

theorem fence_not_store_store_only:
  "\<not> store_store_only (fst (ThreadFenceForConstructor build_arm world_2))"
  by (simp add: ThreadFenceForConstructor_def build_arm_def store_store_only_def
      fence_orders_def)

text \<open>
  C8, amended. \<open>ThreadFenceForConstructor\<close> returns without changing the state. On an
  AArch64 build it executes \<open>dmb ishst\<close>, a store-store barrier and nothing stronger; on
  every other build it executes \<open>std::atomic_thread_fence(std::memory_order_release)\<close>,
  which orders earlier stores, and also earlier loads, with later stores. On every build
  a store before the call is not reordered with a store after it, and no build orders
  earlier accesses with later loads.
\<close>

theorem fence_orders_stores:
  "snd (ThreadFenceForConstructor cfg w) = Returns w
   \<and> fst (ThreadFenceForConstructor cfg w)
       = (if defined_aarch64 cfg then [Dmb_ishst] else [Atomic_thread_fence_release])
   \<and> fence_orders (fst (ThreadFenceForConstructor cfg w)) Store_access Store_access
   \<and> store_store_only (fst (ThreadFenceForConstructor cfg w)) = defined_aarch64 cfg
   \<and> fence_orders (fst (ThreadFenceForConstructor cfg w)) Load_access Store_access
       = (\<not> defined_aarch64 cfg)
   \<and> \<not> fence_orders (fst (ThreadFenceForConstructor cfg w)) Store_access Load_access
   \<and> \<not> fence_orders (fst (ThreadFenceForConstructor cfg w)) Load_access Load_access"
  by (simp add: ThreadFenceForConstructor_def store_store_only_def fence_orders_def)

subsection \<open>The retry loop is unbounded\<close>

lemma length_attempts: "length (attempts addr val st c n) = 2 * n"
  by (induction n arbitrary: c) simp_all

text \<open>
  C9. On the ARM build without LPAE (no \<open>__LP64__\<close>, \<open>__arm__\<close>, no
  \<open>__ARM_FEATURE_LPAE\<close>) \<open>Write64\<close> repeats \<open>ldrexd\<close>/\<open>strexd\<close> until a \<open>strexd\<close> reports
  status 0: when the first \<open>n\<close> attempts fail and the next succeeds it executes exactly
  \<open>n + 1\<close> rounds and returns with the value stored; when no attempt ever succeeds it
  never returns; and for every \<open>n\<close> there is an environment in which it makes \<open>n\<close>
  failed attempts before it returns, so the number of retries has no bound.
\<close>

theorem Write64_retry_loop:
  assumes "\<not> defined_LP64 cfg" and "defined_arm cfg" and "\<not> defined_ARM_FEATURE_LPAE cfg"
  shows "(\<forall>n. strexd_status w (strexd_count w + n) = 0
              \<and> (\<forall>j<n. strexd_status w (strexd_count w + j) \<noteq> 0) \<longrightarrow>
            Write64 cfg addr val w
              = Some (Call_NeedSwapMutexes (kRuntimeISA cfg)
                        # attempts addr val (strexd_status w) (strexd_count w) (Suc n),
                      Returns (w\<lparr>mem := (mem w)(addr := val),
                                 strexd_count := Suc (strexd_count w + n)\<rparr>)))
         \<and> ((\<forall>k\<ge>strexd_count w. strexd_status w k \<noteq> 0) \<longrightarrow> Write64 cfg addr val w = None)
         \<and> (\<forall>n. \<exists>tr w'.
               Write64 cfg addr val
                 (w\<lparr>strexd_status := (\<lambda>k. if k < strexd_count w + n then 1 else 0)\<rparr>)
                 = Some (tr, Returns w')
               \<and> strexd_count w' = strexd_count w + n + 1 \<and> length tr = 1 + 2 * (n + 1))"
proof (intro conjI allI impI)
  fix n
  assume "strexd_status w (strexd_count w + n) = 0
     \<and> (\<forall>j<n. strexd_status w (strexd_count w + j) \<noteq> 0)"
  then have n: "strexd_status w (strexd_count w + n) = 0"
    "\<forall>j<n. strexd_status w (strexd_count w + j) \<noteq> 0" by blast+
  show "Write64 cfg addr val w
     = Some (Call_NeedSwapMutexes (kRuntimeISA cfg)
               # attempts addr val (strexd_status w) (strexd_count w) (Suc n),
             Returns (w\<lparr>mem := (mem w)(addr := val), strexd_count := Suc (strexd_count w + n)\<rparr>))"
    using assms Write64_loop_Some[OF n, of addr val "[Call_NeedSwapMutexes (kRuntimeISA cfg)]"]
    by (simp add: Write64_def NeedSwapMutexes_def del: attempts.simps)
next
  assume "\<forall>k\<ge>strexd_count w. strexd_status w k \<noteq> 0"
  from Write64_loop_None[OF this, of addr val "[Call_NeedSwapMutexes (kRuntimeISA cfg)]"] assms
  show "Write64 cfg addr val w = None"
    by (simp add: Write64_def NeedSwapMutexes_def)
next
  fix n
  let ?w = "w\<lparr>strexd_status := (\<lambda>k. if k < strexd_count w + n then 1 else 0)\<rparr>"
  have a: "strexd_status ?w (strexd_count ?w + n) = 0" by simp
  have b: "\<forall>j<n. strexd_status ?w (strexd_count ?w + j) \<noteq> 0" by simp
  from Write64_loop_Some[OF a b, of addr val "[Call_NeedSwapMutexes (kRuntimeISA cfg)]"] assms
  have "Write64 cfg addr val ?w
     = Some (Call_NeedSwapMutexes (kRuntimeISA cfg)
               # attempts addr val (strexd_status ?w) (strexd_count ?w) (Suc n),
             Returns (?w\<lparr>mem := (mem ?w)(addr := val), strexd_count := Suc (strexd_count ?w + n)\<rparr>))"
    by (simp add: Write64_def NeedSwapMutexes_def del: attempts.simps)
  then show "\<exists>tr w'. Write64 cfg addr val ?w = Some (tr, Returns w')
      \<and> strexd_count w' = strexd_count w + n + 1 \<and> length tr = 1 + 2 * (n + 1)"
    by (simp add: length_attempts del: attempts.simps)
qed

theorem Write64_retry_loop_witness:
  "\<not> defined_LP64 build_arm \<and> defined_arm build_arm \<and> \<not> defined_ARM_FEATURE_LPAE build_arm
   \<and> Write64 build_arm 16 7 world_2
       = Some ([Call_NeedSwapMutexes ''arm'', Ldrexd 16, Strexd 16 7 1, Ldrexd 16, Strexd 16 7 1,
                Ldrexd 16, Strexd 16 7 0],
               Returns (world_2\<lparr>mem := (mem world_2)(16 := 7), strexd_count := 3\<rparr>))
   \<and> Write64 build_arm 16 7 world_never = None"
proof -
  have h: "\<not> defined_LP64 build_arm" "defined_arm build_arm"
    "\<not> defined_ARM_FEATURE_LPAE build_arm"
    by (simp_all add: build_arm_def)
  have s: "strexd_status world_2 (strexd_count world_2 + 2) = 0
      \<and> (\<forall>j<2. strexd_status world_2 (strexd_count world_2 + j) \<noteq> 0)"
    by (simp add: world_2_def)
  have f: "\<forall>k\<ge>strexd_count world_never. strexd_status world_never k \<noteq> 0"
    by (simp add: world_never_def)
  from Write64_retry_loop [OF h, of world_2 16 7] s
  have "Write64 build_arm 16 7 world_2
       = Some (Call_NeedSwapMutexes (kRuntimeISA build_arm)
                 # attempts 16 7 (strexd_status world_2) (strexd_count world_2) (Suc 2),
               Returns (world_2\<lparr>mem := (mem world_2)(16 := 7),
                 strexd_count := Suc (strexd_count world_2 + 2)\<rparr>))"
    by blast
  moreover from Write64_retry_loop [OF h, of world_never 16 7] f
  have "Write64 build_arm 16 7 world_never = None" by blast
  ultimately show ?thesis using h
    by (simp add: build_arm_def world_2_def numeral_2_eq_2)
qed

subsection \<open>The mutex pool\<close>

lemma GetSwapMutex_bound: "GetSwapMutex addr < kSwapMutexCount"
  by (simp add: GetSwapMutex_def kSwapMutexCount_def)

lemma replicate_update_same: "(replicate k x)[i := x] = replicate k x"
  by (induction k arbitrary: i) (simp_all split: nat.splits)

lemma MutexLock_free:
  assumes "gSwapMutexes w = Some (replicate k Unlocked)" and "i < k"
  shows "MutexLock i w = Returns (w\<lparr>gSwapMutexes := Some ((replicate k Unlocked)[i := Locked])\<rparr>)"
  using assms by (simp add: MutexLock_def)

lemma MutexUnlock_held:
  assumes "gSwapMutexes w = Some ((replicate k Unlocked)[i := Locked])" and "i < k"
  shows "MutexUnlock i w = Returns (w\<lparr>gSwapMutexes := Some (replicate k Unlocked)\<rparr>)"
  using assms by (simp add: MutexUnlock_def replicate_update_same)

lemma MutexLock_pool_size: "MutexLock i w = Returns w' \<Longrightarrow> pool_size w' = pool_size w"
  by (auto simp: MutexLock_def pool_size_def split: option.splits if_splits)

lemma MutexUnlock_pool_size: "MutexUnlock i w = Returns w' \<Longrightarrow> pool_size w' = pool_size w"
  by (auto simp: MutexUnlock_def pool_size_def split: option.splits if_splits)

lemma fallback_step_quiescent:
  assumes "gSwapMutexes w = Some (replicate kSwapMutexCount Unlocked)"
  shows "\<exists>w'. fallback_step x w = Returns w'
           \<and> gSwapMutexes w' = Some (replicate kSwapMutexCount Unlocked)"
proof -
  have l: "MutexLock (GetSwapMutex a) w = Returns (w\<lparr>gSwapMutexes :=
      Some ((replicate kSwapMutexCount Unlocked)[GetSwapMutex a := Locked])\<rparr>)" for a
    by (rule MutexLock_free[OF assms GetSwapMutex_bound])
  have u: "MutexUnlock (GetSwapMutex a) (w\<lparr>gSwapMutexes :=
        Some ((replicate kSwapMutexCount Unlocked)[GetSwapMutex a := Locked]), mem := m\<rparr>)
      = Returns (w\<lparr>gSwapMutexes := Some (replicate kSwapMutexCount Unlocked), mem := m\<rparr>)" for a m
    using MutexUnlock_held[of "w\<lparr>gSwapMutexes :=
        Some ((replicate kSwapMutexCount Unlocked)[GetSwapMutex a := Locked]), mem := m\<rparr>"
        kSwapMutexCount "GetSwapMutex a"] GetSwapMutex_bound[of a]
    by simp
  have u0: "MutexUnlock (GetSwapMutex a) (w\<lparr>gSwapMutexes :=
        Some ((replicate kSwapMutexCount Unlocked)[GetSwapMutex a := Locked])\<rparr>)
      = Returns (w\<lparr>gSwapMutexes := Some (replicate kSwapMutexCount Unlocked)\<rparr>)" for a
    using u[of a "mem w"] by simp
  show ?thesis
  proof (cases x)
    case (Op_Read64 a)
    then show ?thesis by (simp add: SwapMutexRead64_def l u0)
  next
    case (Op_Write64 a v)
    then show ?thesis by (simp add: SwapMutexWrite64_def l u)
  next
    case (Op_Cas64 old new a)
    then show ?thesis by (simp add: SwapMutexCas64_def l u u0)
  qed
qed

lemma fallback_run_quiescent:
  "gSwapMutexes w = Some (replicate kSwapMutexCount Unlocked) \<Longrightarrow>
   \<exists>w'. fallback_run xs w = Returns w'
      \<and> gSwapMutexes w' = Some (replicate kSwapMutexCount Unlocked)"
proof (induction xs arbitrary: w)
  case Nil
  then show ?case by simp
next
  case (Cons x xs)
  from fallback_step_quiescent[OF Cons.prems, of x] obtain w1 where
    w1: "fallback_step x w = Returns w1" "gSwapMutexes w1 = Some (replicate kSwapMutexCount Unlocked)"
    by blast
  from Cons.IH[OF w1(2)] w1(1) show ?case by simp
qed

text \<open>
  C10. \<open>kSwapMutexCount\<close> is 32. The pool allocated at startup when the fallback is
  selected has exactly 32 locks; after any sequence of fallback reads, writes and
  compare-and-swaps every call has returned and the pool still has 32 locks; taking or
  releasing a lock does not change the size of the pool; after shutdown there is no pool.
\<close>

theorem MutexPool_fixed_size:
  "kSwapMutexCount = 32
   \<and> pool_size (AllocateSwapMutexes w) = Some 32
   \<and> (\<exists>w'. fallback_run xs (AllocateSwapMutexes w) = Returns w' \<and> pool_size w' = Some 32)
   \<and> (\<forall>i w0 w1. MutexLock i w0 = Returns w1 \<longrightarrow> pool_size w1 = pool_size w0)
   \<and> (\<forall>i w0 w1. MutexUnlock i w0 = Returns w1 \<longrightarrow> pool_size w1 = pool_size w0)
   \<and> pool_size (Shutdown w) = None"
proof (intro conjI allI impI)
  show "kSwapMutexCount = 32" by (simp add: kSwapMutexCount_def)
  show "pool_size (AllocateSwapMutexes w) = Some 32"
    by (simp add: pool_size_def AllocateSwapMutexes_def kSwapMutexCount_def)
  have a: "gSwapMutexes (AllocateSwapMutexes w) = Some (replicate kSwapMutexCount Unlocked)"
    by (simp add: AllocateSwapMutexes_def)
  from fallback_run_quiescent[OF a, of xs] obtain w' where
    w': "fallback_run xs (AllocateSwapMutexes w) = Returns w'"
    "gSwapMutexes w' = Some (replicate kSwapMutexCount Unlocked)" by blast
  from w'(2) have "pool_size w' = Some 32" by (simp add: pool_size_def kSwapMutexCount_def)
  with w'(1) show "\<exists>w'. fallback_run xs (AllocateSwapMutexes w) = Returns w' \<and> pool_size w' = Some 32"
    by blast
  show "pool_size (Shutdown w) = None" by (simp add: pool_size_def Shutdown_def)
next
  fix i w0 w1 assume "MutexLock i w0 = Returns w1"
  then show "pool_size w1 = pool_size w0" by (rule MutexLock_pool_size)
next
  fix i w0 w1 assume "MutexUnlock i w0 = Returns w1"
  then show "pool_size w1 = pool_size w0" by (rule MutexUnlock_pool_size)
qed

theorem MutexPool_fixed_size_witness:
  "MutexLock 2 (AllocateSwapMutexes world_2)
     = Returns (world_2\<lparr>gSwapMutexes := Some ((replicate 32 Unlocked)[2 := Locked])\<rparr>)
   \<and> pool_size (world_2\<lparr>gSwapMutexes := Some ((replicate 32 Unlocked)[2 := Locked])\<rparr>) = Some 32
   \<and> MutexUnlock 2 (world_2\<lparr>gSwapMutexes := Some ((replicate 32 Unlocked)[2 := Locked])\<rparr>)
     = Returns (AllocateSwapMutexes world_2)
   \<and> pool_size (AllocateSwapMutexes world_2) = Some 32
   \<and> (\<exists>w'. fallback_run [Op_Write64 16 7, Op_Cas64 7 9 16, Op_Read64 16]
              (AllocateSwapMutexes world_2) = Returns w' \<and> pool_size w' = Some 32)"
proof -
  let ?held = "world_2\<lparr>gSwapMutexes := Some ((replicate 32 Unlocked)[2 := Locked])\<rparr>"
  note t = MutexPool_fixed_size [of world_2 "[Op_Write64 16 7, Op_Cas64 7 9 16, Op_Read64 16]"]
  have l: "MutexLock 2 (AllocateSwapMutexes world_2) = Returns ?held"
    by (simp add: MutexLock_def AllocateSwapMutexes_def kSwapMutexCount_def)
  have u: "MutexUnlock 2 ?held = Returns (AllocateSwapMutexes world_2)"
    by (simp add: MutexUnlock_def AllocateSwapMutexes_def kSwapMutexCount_def
        replicate_update_same)
  from t have p: "pool_size (AllocateSwapMutexes world_2) = Some 32" by blast
  from t l have "pool_size ?held = pool_size (AllocateSwapMutexes world_2)" by blast
  with p have h: "pool_size ?held = Some 32" by simp
  from t have r: "\<exists>w'. fallback_run [Op_Write64 16 7, Op_Cas64 7 9 16, Op_Read64 16]
              (AllocateSwapMutexes world_2) = Returns w' \<and> pool_size w' = Some 32" by blast
  from l h u p r show ?thesis by blast
qed

end
